theory Spec2Isabelle
  imports Complex_Main "HOL-Library.AList" "HOL-Library.Char_ord" "HOL-Library.List_Lexorder"
    "HOL-Library.Sublist"
begin

section \<open>Data model of \<^verbatim>\<open>prefix_tree.py\<close>\<close>

text \<open>
  The exceptions the modelled code can raise. \<open>KeyError\<close> is the spec's NotFound
  (a missing dictionary key, also the missing \<^verbatim>\<open>'prob'\<close> field), \<open>UnboundLocalError\<close>
  is the read of the never-bound local \<^verbatim>\<open>node\<close> in \<^verbatim>\<open>insert\<close>,
  \<open>NotImplementedError\<close> and \<open>ValueError\<close> are raised by
  \<^verbatim>\<open>segment_surprisal_tree.py\<close>.
\<close>

datatype py_error = KeyError | ZeroDivisionError | UnboundLocalError | NotImplementedError
  | ValueError

text \<open>
  A node is the dictionary \<^verbatim>\<open>{'id': .., 'labels': .., 'freq': .., 'children': ..}\<close>;
  the key \<^verbatim>\<open>'prob'\<close> is absent until \<^verbatim>\<open>calculate_probs\<close> stores it, hence an option.
  A sequence (tuple or string) is a list of symbols. The \<^verbatim>\<open>children\<close> dictionary is an
  association list with pairwise distinct keys. Python 2 leaves the iteration order of a
  dictionary open; the model iterates in insertion order, and no result below depends on
  that choice other than through the order of the traversal itself.
  Frequencies and probabilities are Python numbers; they are modelled as exact reals, so
  rounding of floating-point arithmetic is not part of the model.
\<close>

datatype 's node = Node (node_id: "'s list") (labels: "string list") (freq: real)
  (prob: "real option") (children: "('s list \<times> 's node) list")

record node_stats =
  stats_n :: nat
  stats_entropy :: real

record 's PrefixTree =
  tree :: "'s node"
  cache :: "'s list \<rightharpoonup> node_stats"

definition PrefixTree_init :: "'s PrefixTree" where
  "PrefixTree_init = \<lparr>tree = Node [] [''root''] 0 None [], cache = Map.empty\<rparr>"

section \<open>Insertion\<close>

text \<open>
  The loop of \<^verbatim>\<open>insert\<close>, started at index \<open>i\<close> with \<open>pre = vector[:i]\<close> and
  \<open>x # rest = vector[i:]\<close>, on the dictionary \<open>pointer\<close>. \<^verbatim>\<open>setdefault\<close> fetches the
  node stored under \<open>vector[:i+1]\<close> or stores a fresh one at the end of the dictionary;
  the node is then mutated in place (frequency, the children by the remaining
  iterations, and after the last iteration the label), which is \<open>AList.update\<close> of the
  entry with the mutated node.
\<close>

fun insert_loop :: "'s list \<Rightarrow> 's list \<Rightarrow> real \<Rightarrow> string \<Rightarrow> ('s list \<times> 's node) list
    \<Rightarrow> ('s list \<times> 's node) list" where
  "insert_loop pre [] w l pointer = pointer"
| "insert_loop pre (x # rest) w l pointer =
     (let key = pre @ [x];
          node = (case map_of pointer key of
                    None \<Rightarrow> Node key [] 0 None []
                  | Some nd \<Rightarrow> nd)
      in AList.update key
           (Node (node_id node)
              (if rest = [] then labels node @ [l] else labels node)
              (freq node + w) (prob node)
              (insert_loop key rest w l (children node)))
           pointer)"

text \<open>
  \<^verbatim>\<open>insert(vector, freq, label)\<close>. The root frequency is incremented first. With an
  empty vector the loop body never runs and the final \<^verbatim>\<open>node['labels'].append(label)\<close>
  reads an unbound local: the call raises, and the tree keeps the incremented root.
  The result is the tree after the call together with the exception, if any.
\<close>

definition insert_tree :: "'s list \<Rightarrow> real \<Rightarrow> string \<Rightarrow> 's PrefixTree
    \<Rightarrow> 's PrefixTree \<times> py_error option" where
  "insert_tree vector w l pt =
     (let rt = tree pt;
          root1 = Node (node_id rt) (labels rt) (freq rt + w) (prob rt) (children rt)
      in if vector = [] then (pt\<lparr>tree := root1\<rparr>, Some UnboundLocalError)
         else (pt\<lparr>tree := Node (node_id root1) (labels root1) (freq root1) (prob root1)
                         (insert_loop [] vector w l (children root1))\<rparr>, None))"

text \<open>
  A caller's sequence of \<^verbatim>\<open>insert\<close> calls, each given as (sequence, weight, label). An
  exception ends the run, as it does in a script that does not catch it.
\<close>

fun insert_all :: "('s list \<times> real \<times> string) list \<Rightarrow> 's PrefixTree \<Rightarrow> py_error + 's PrefixTree"
  where
  "insert_all [] pt = Inr pt"
| "insert_all ((vector, w, l) # ops) pt =
     (case insert_tree vector w l pt of
        (pt', Some e) \<Rightarrow> Inl e
      | (pt', None) \<Rightarrow> insert_all ops pt')"

section \<open>Navigation\<close>

text \<open>
  \<^verbatim>\<open>get_node\<close> and \<^verbatim>\<open>get_prefixes\<close>: the loop at index \<open>i\<close>, with \<open>pre = vector[:i]\<close>
  and the remaining symbols; a missing key raises \<open>KeyError\<close>.
\<close>

fun get_node_loop :: "'s list \<Rightarrow> 's list \<Rightarrow> 's node \<Rightarrow> py_error + 's node" where
  "get_node_loop pre [] pointer = Inr pointer"
| "get_node_loop pre (x # rest) pointer =
     (case map_of (children pointer) (pre @ [x]) of
        None \<Rightarrow> Inl KeyError
      | Some nd \<Rightarrow> get_node_loop (pre @ [x]) rest nd)"

definition get_node :: "'s list \<Rightarrow> 's PrefixTree \<Rightarrow> py_error + 's node" where
  "get_node vector pt = get_node_loop [] vector (tree pt)"

fun get_prefixes_loop :: "'s list \<Rightarrow> 's list \<Rightarrow> 's node \<Rightarrow> py_error + ('s \<times> 's node) list" where
  "get_prefixes_loop pre [] pointer = Inr []"
| "get_prefixes_loop pre (x # rest) pointer =
     (case map_of (children pointer) (pre @ [x]) of
        None \<Rightarrow> Inl KeyError
      | Some nd \<Rightarrow>
          (case get_prefixes_loop (pre @ [x]) rest nd of
             Inl e \<Rightarrow> Inl e
           | Inr prefs \<Rightarrow> Inr ((x, nd) # prefs)))"

definition get_prefixes :: "'s list \<Rightarrow> 's PrefixTree \<Rightarrow> py_error + ('s \<times> 's node) list" where
  "get_prefixes vector pt = get_prefixes_loop [] vector (tree pt)"

section \<open>Conditional probabilities\<close>

text \<open>
  \<^verbatim>\<open>calculate_probs(node)\<close>: \<open>calc_children\<close> is the \<^verbatim>\<open>for child in ...values()\<close> loop
  with the parent's frequency \<open>pf\<close>. The division raises \<open>ZeroDivisionError\<close> when the
  parent's frequency is zero; the assignments made before the exception stay in the
  tree, so the (partly updated) tree is returned together with the exception.
\<close>

fun calc_children :: "real \<Rightarrow> ('s list \<times> 's node) list
    \<Rightarrow> ('s list \<times> 's node) list \<times> py_error option"
  and calculate_probs_node :: "'s node \<Rightarrow> 's node \<times> py_error option" where
  "calc_children pf [] = ([], None)"
| "calc_children pf ((k, Node i ls f p gs) # cs) =
     (if pf = 0 then ((k, Node i ls f p gs) # cs, Some ZeroDivisionError)
      else (case calculate_probs_node (Node i ls f (Some (f / pf)) gs) of
              (child, Some e) \<Rightarrow> ((k, child) # cs, Some e)
            | (child, None) \<Rightarrow>
                (case calc_children pf cs of (cs', r) \<Rightarrow> ((k, child) # cs', r))))"
| "calculate_probs_node (Node i ls f p cs) =
     (case calc_children f cs of (cs', r) \<Rightarrow> (Node i ls f p cs', r))"

definition calculate_probs :: "'s PrefixTree \<Rightarrow> 's PrefixTree \<times> py_error option" where
  "calculate_probs pt =
     (case calculate_probs_node (tree pt) of (rt, r) \<Rightarrow> (pt\<lparr>tree := rt\<rparr>, r))"

section \<open>Continuations, entropy and cached statistics\<close>

fun get_continuations :: "'s node \<Rightarrow> (string list \<times> real) list" where
  "get_continuations (Node i ls f p cs) =
     (if cs = [] then [(ls, f)]
      else concat (map (\<lambda>(k, x). get_continuations x) cs))"

text \<open>
  \<^verbatim>\<open>_entropy(v)\<close>, step by step as in the source: add one, divide by the sum, then
  \<^verbatim>\<open>-sum(v * log2(v))\<close>, over the reals.
\<close>

definition entropy :: "real list \<Rightarrow> real" where
  "entropy v =
     (let v1 = map (\<lambda>x. x + 1) v;
          v2 = map (\<lambda>x. x / sum_list v1) v1
      in - sum_list (map (\<lambda>x. x * log 2 x) v2))"

text \<open>
  \<^verbatim>\<open>get_node_stats(node)\<close>: the cache is keyed by the node's id; a hit returns the stored
  entry, a miss computes, stores and returns it. The tree with the new cache is returned.
\<close>

definition get_node_stats :: "'s node \<Rightarrow> 's PrefixTree \<Rightarrow> node_stats \<times> 's PrefixTree" where
  "get_node_stats node pt =
     (case cache pt (node_id node) of
        Some s \<Rightarrow> (s, pt)
      | None \<Rightarrow>
          (let cont_freqs = map snd (get_continuations node);
               s = \<lparr>stats_n = length cont_freqs, stats_entropy = entropy cont_freqs\<rparr>
           in (s, pt\<lparr>cache := (cache pt)(node_id node \<mapsto> s)\<rparr>)))"

section \<open>Prefix-wise queries\<close>

text \<open>
  A list comprehension whose element expression may raise: the first exception ends it.
\<close>

fun comprehension :: "('a \<Rightarrow> py_error + 'b) \<Rightarrow> 'a list \<Rightarrow> py_error + 'b list" where
  "comprehension g [] = Inr []"
| "comprehension g (a # as) =
     (case g a of
        Inl e \<Rightarrow> Inl e
      | Inr b \<Rightarrow> (case comprehension g as of Inl e \<Rightarrow> Inl e | Inr bs \<Rightarrow> Inr (b # bs)))"

definition prefix_surprisals :: "'s list \<Rightarrow> 's PrefixTree \<Rightarrow> py_error + ('s \<times> real) list" where
  "prefix_surprisals vector pt =
     (case get_prefixes vector pt of
        Inl e \<Rightarrow> Inl e
      | Inr prefs \<Rightarrow>
          comprehension (\<lambda>(x, y). case prob y of None \<Rightarrow> Inl KeyError
                                   | Some p \<Rightarrow> Inr (x, - log 2 p)) prefs)"

definition prefix_probabilities :: "'s list \<Rightarrow> 's PrefixTree \<Rightarrow> py_error + ('s \<times> real) list" where
  "prefix_probabilities vector pt =
     (case get_prefixes vector pt of
        Inl e \<Rightarrow> Inl e
      | Inr prefs \<Rightarrow>
          comprehension (\<lambda>(x, y). case prob y of None \<Rightarrow> Inl KeyError
                                   | Some p \<Rightarrow> Inr (x, p)) prefs)"

section \<open>Uniqueness point (\<^verbatim>\<open>segment_surprisal_tree.py\<close>)\<close>

record SegmentSurprisalTree =
  lexicon :: "string PrefixTree"
  pronunciations :: "string \<rightharpoonup> string list"

text \<open>
  \<^verbatim>\<open>read_elp\<close> on rows that are already parsed: the word, its translated pronunciation
  and its frequency, \<open>None\<close> standing for the values \<^verbatim>\<open>'0'\<close> and \<^verbatim>\<open>'NULL'\<close> that are not
  inserted. Reading the CSV file, \<^verbatim>\<open>ELP2CMU.translate\<close> and \<^verbatim>\<open>float\<close> are outside the
  model. The inserted sequence ends in \<^verbatim>\<open>'#'\<close>, so \<open>insert_tree\<close> cannot raise here.
\<close>

fun read_rows :: "(string \<times> string list \<times> real option) list \<Rightarrow> SegmentSurprisalTree
    \<Rightarrow> SegmentSurprisalTree" where
  "read_rows [] sst = sst"
| "read_rows ((word, pron, fr) # rows) sst =
     read_rows rows
       \<lparr>lexicon = (case fr of
                     None \<Rightarrow> lexicon sst
                   | Some w \<Rightarrow> fst (insert_tree (pron @ [''#'']) w word (lexicon sst))),
        pronunciations = (pronunciations sst)(word \<mapsto> pron)\<rparr>"

definition read_elp :: "(string \<times> string list \<times> real option) list
    \<Rightarrow> SegmentSurprisalTree \<times> py_error option" where
  "read_elp rows =
     (let sst = read_rows rows \<lparr>lexicon = PrefixTree_init, pronunciations = Map.empty\<rparr>
      in case calculate_probs (lexicon sst) of
           (pt, r) \<Rightarrow> (sst\<lparr>lexicon := pt\<rparr>, r))"

text \<open>Python's \<^verbatim>\<open>'%s' % k\<close> for a non-negative integer: its decimal digits.\<close>

function str_nat :: "nat \<Rightarrow> string" where
  "str_nat k = (if k < 10 then [''0123456789'' ! k]
                else str_nat (k div 10) @ [''0123456789'' ! (k mod 10)])"
  by pat_completeness auto
termination
  by (relation "measure (\<lambda>k. k)") auto

declare str_nat.simps [simp del]

text \<open>
  The loop of \<^verbatim>\<open>get_word_continuations\<close> over the prefixes, with the running
  \<^verbatim>\<open>phoneme_count\<close> and the dictionary built so far; the key is
  \<^verbatim>\<open>'%s_%s' % (phoneme_count, phoneme_iter)\<close>.
\<close>

fun continuations_loop :: "(string \<times> string node) list \<Rightarrow> nat \<Rightarrow> (string \<times> real list) list
    \<Rightarrow> (string \<times> real list) list" where
  "continuations_loop [] phoneme_count continuation_dict = continuation_dict"
| "continuations_loop ((phoneme_iter, prefix_node) # rest) phoneme_count continuation_dict =
     continuations_loop rest (phoneme_count + 1)
       (AList.update (str_nat phoneme_count @ ''_'' @ phoneme_iter)
          (map snd (get_continuations prefix_node)) continuation_dict)"

definition get_word_continuations :: "string \<Rightarrow> SegmentSurprisalTree
    \<Rightarrow> py_error + (string \<times> real list) list" where
  "get_word_continuations word sst =
     (case pronunciations sst word of
        None \<Rightarrow> Inl NotImplementedError
      | Some word_pron \<Rightarrow>
          (case get_prefixes (word_pron @ [''#'']) (lexicon sst) of
             Inl e \<Rightarrow> Inl e
           | Inr prefs \<Rightarrow> Inr (continuations_loop prefs 0 [])))"

text \<open>
  \<^verbatim>\<open>get_uniqueness_point\<close>: the keys are sorted as strings (Python 2 compares \<^verbatim>\<open>str\<close>
  byte by byte, which is the lexicographic order on \<open>char list\<close>), then scanned with
  \<^verbatim>\<open>enumerate\<close>; \<open>ValueError\<close> when no entry has exactly one continuation.
\<close>

fun uniqueness_loop :: "(string \<times> real list) list \<Rightarrow> (nat \<times> string) list
    \<Rightarrow> py_error + (nat \<times> string)" where
  "uniqueness_loop continuation_dict [] = Inl ValueError"
| "uniqueness_loop continuation_dict ((n, phoneme) # rest) =
     (case map_of continuation_dict phoneme of
        None \<Rightarrow> Inl KeyError
      | Some conts \<Rightarrow>
          if length conts = 1 then Inr (n, phoneme)
          else uniqueness_loop continuation_dict rest)"

definition get_uniqueness_point :: "string \<Rightarrow> SegmentSurprisalTree
    \<Rightarrow> py_error + (nat \<times> string)" where
  "get_uniqueness_point word sst =
     (case get_word_continuations word sst of
        Inl e \<Rightarrow> Inl e
      | Inr continuation_dict \<Rightarrow>
          (let phoneme_list = sort (map fst continuation_dict)
           in uniqueness_loop continuation_dict (enumerate 0 phoneme_list)))"

section \<open>Traversal used to state properties\<close>

text \<open>All nodes of the subtree below and including a node, parents before children.\<close>

fun subnodes :: "'s node \<Rightarrow> 's node list" where
  "subnodes (Node i ls f p cs) =
     Node i ls f p cs # concat (map (\<lambda>(k, x). subnodes x) cs)"

section \<open>Callers and example inputs\<close>

text \<open>
  A caller's sequence of calls on one tree. A call that raises leaves the tree as the
  exception found it, as for a caller that catches the exception.
\<close>

datatype 's call = Insert "'s list" real string | CalculateProbs | GetNodeStats "'s node"

fun perform :: "'s call \<Rightarrow> 's PrefixTree \<Rightarrow> 's PrefixTree" where
  "perform (Insert vector w l) pt = fst (insert_tree vector w l pt)"
| "perform CalculateProbs pt = fst (calculate_probs pt)"
| "perform (GetNodeStats nd) pt = snd (get_node_stats nd pt)"


text \<open>
  Example inputs: the tree after \<^verbatim>\<open>insert('ab', 3, 'ab')\<close>, its node \<^verbatim>\<open>'a'\<close>, and that
  node after a further \<^verbatim>\<open>insert('ac', 3, 'ac')\<close>; and a lexicon of two words, one of them
  with eleven prefix positions.
\<close>

definition tree_ab :: "char PrefixTree" where
  "tree_ab = fst (insert_tree ''ab'' 3 ''ab'' PrefixTree_init)"

definition node_a :: "char node" where
  "node_a = Node ''a'' [] 3 None [(''ab'', Node ''ab'' [''ab''] 3 None [])]"

definition node_a_later :: "char node" where
  "node_a_later = Node ''a'' [] 6 None
     [(''ab'', Node ''ab'' [''ab''] 3 None []), (''ac'', Node ''ac'' [''ac''] 3 None [])]"

definition lexicon_rows :: "(string \<times> string list \<times> real option) list" where
  "lexicon_rows =
     [(''long'', [''a'', ''b'', ''c'', ''d'', ''e'', ''f'', ''g'', ''h'', ''i'', ''j''], Some 1),
      (''abz'', [''a'', ''b'', ''z''], Some 1)]"

section \<open>Notions used to state and prove the tree properties\<close>

text \<open>
  A prefix counts as inserted when it is the empty prefix (the root, always present) or
  a prefix of one of the inserted sequences.
\<close>

definition inserted_prefix :: "('s list \<times> real \<times> string) list \<Rightarrow> 's list \<Rightarrow> bool" where
  "inserted_prefix ops p = (p = [] \<or> (\<exists>(u, w, l)\<in>set ops. prefix p u))"

text \<open>Every node below the given one is stored under its own id.\<close>

fun ids_ok :: "'s node \<Rightarrow> bool" where
  "ids_ok (Node i ls f p cs) = (\<forall>(k, c)\<in>set cs. node_id c = k \<and> ids_ok c)"

text \<open>
  The two halves of one iteration of \<open>insert_loop\<close>, named for the proofs: the node that
  \<^verbatim>\<open>setdefault\<close> returns, and that node after the iteration and the remaining ones.
\<close>

definition fetch :: "('s list \<times> 's node) list \<Rightarrow> 's list \<Rightarrow> 's node" where
  "fetch pointer key = (case map_of pointer key of None \<Rightarrow> Node key [] 0 None [] | Some nd \<Rightarrow> nd)"

definition visit :: "'s list \<Rightarrow> 's list \<Rightarrow> real \<Rightarrow> string \<Rightarrow> 's node \<Rightarrow> 's node" where
  "visit key rest w l node =
     Node (node_id node) (if rest = [] then labels node @ [l] else labels node)
       (freq node + w) (prob node) (insert_loop key rest w l (children node))"

text \<open>The tree of the docstring example: \<^verbatim>\<open>insert('124', 3)\<close>, \<^verbatim>\<open>insert('125', 3)\<close>.\<close>

definition tree_124_125 :: "char PrefixTree" where
  "tree_124_125 =
     \<lparr>tree = Node [] [''root''] 6 None
        [(''1'', Node ''1'' [] 6 None
           [(''12'', Node ''12'' [] 6 None
              [(''124'', Node ''124'' [''''] 3 None []),
               (''125'', Node ''125'' [''''] 3 None [])])])],
      cache = Map.empty\<rparr>"

section \<open>Insertion sequences and the invariants of the specification\<close>


















section \<open>Failed insertion of the empty sequence\<close>

text \<open>
  C10. \<^verbatim>\<open>insert\<close> called with the empty sequence always raises (the unbound local
  \<^verbatim>\<open>node\<close>), and the tree it leaves behind has the root frequency incremented by the
  given weight: the failed call is not atomic.
\<close>

theorem insert_empty_fails_after_mutation:
  "snd (insert_tree [] w l pt) = Some UnboundLocalError \<and>
   freq (tree (fst (insert_tree [] w l pt))) = freq (tree pt) + w"
  by (simp add: insert_tree_def Let_def)

section \<open>Continuations\<close>

lemma concat_map_cong_pairs:
  assumes "\<And>k x. (k, x) \<in> set cs \<Longrightarrow> g x = h x"
  shows "concat (map (\<lambda>(k, x). g x) cs) = concat (map (\<lambda>(k, x). h x) cs)"
proof -
  have "map (\<lambda>(k, x). g x) cs = map (\<lambda>(k, x). h x) cs"
    by (rule map_cong) (auto simp: assms)
  then show ?thesis by (rule arg_cong)
qed

lemma get_continuations_subnodes:
  "get_continuations nd =
     map (\<lambda>m. (labels m, freq m)) (filter (\<lambda>m. children m = []) (subnodes nd))"
proof (induction nd rule: get_continuations.induct)
  case (1 i ls f p cs)
  show ?case
  proof (cases "cs = []")
    case True
    then show ?thesis by simp
  next
    case False
    have "concat (map (\<lambda>(k, x). get_continuations x) cs) =
          concat (map (\<lambda>(k, x). map (\<lambda>m. (labels m, freq m))
             (filter (\<lambda>m. children m = []) (subnodes x))) cs)"
      by (rule concat_map_cong_pairs) (use 1 False in auto)
    also have "\<dots> = map (\<lambda>m. (labels m, freq m))
        (filter (\<lambda>m. children m = []) (concat (map (\<lambda>(k, x). subnodes x) cs)))"
      by (induction cs) auto
    finally show ?thesis using False by simp
  qed
qed

text \<open>
  C4. \<^verbatim>\<open>get_continuations(node)\<close> is exactly the list of (labels, frequency) pairs of the
  childless nodes of the subtree of \<open>node\<close>, in traversal order; for a childless node
  it is the one-element list of that node's own pair.
\<close>

theorem get_continuations_terminal_descendants:
  "get_continuations nd =
     map (\<lambda>m. (labels m, freq m)) (filter (\<lambda>m. children m = []) (subnodes nd)) \<and>
   get_continuations (Node i ls f p []) = [(ls, f)]"
  using get_continuations_subnodes by simp

section \<open>Surprisal and probability\<close>

lemma comprehension_surprisal:
  "comprehension (\<lambda>(x, y). case prob y of None \<Rightarrow> Inl KeyError
                                   | Some p \<Rightarrow> Inr (x, - log 2 p)) ps =
   (case comprehension (\<lambda>(x, y). case prob y of None \<Rightarrow> Inl KeyError
                                   | Some p \<Rightarrow> Inr (x, p)) ps of
      Inl e \<Rightarrow> Inl e
    | Inr qs \<Rightarrow> Inr (map (\<lambda>(x, p). (x, - log 2 p)) qs))"
  by (induction ps) (auto split: option.splits sum.splits)

text \<open>
  C6. \<^verbatim>\<open>prefix_surprisals\<close> and \<^verbatim>\<open>prefix_probabilities\<close> raise in the same cases, and
  when they return they list the same symbols in the same order, the surprisal at each
  position being minus the base-2 logarithm of the probability at that position.
\<close>

theorem surprisal_probability_duality:
  "prefix_surprisals vector pt =
     (case prefix_probabilities vector pt of
        Inl e \<Rightarrow> Inl e
      | Inr qs \<Rightarrow> Inr (map (\<lambda>(x, p). (x, - log 2 p)) qs))"
  by (simp add: prefix_surprisals_def prefix_probabilities_def comprehension_surprisal
      split: sum.splits)

section \<open>Idempotence of the derivation pass\<close>

lemma calc_idem:
  "calc_children pf (fst (calc_children pf cs)) = calc_children pf (cs :: ('s list \<times> 's node) list)"
  "calculate_probs_node (fst (calculate_probs_node nd)) = calculate_probs_node (nd :: 's node)"
proof (induction pf cs and nd rule: calc_children_calculate_probs_node.induct)
  case (1 pf)
  then show ?case by simp
next
  case (2 pf k i ls f p gs cs)
  show ?case
  proof (cases "pf = 0")
    case True
    then show ?thesis by simp
  next
    case False
    obtain gs' r where g: "calc_children f gs = (gs', r)" by (cases "calc_children f gs")
    from 2(1)[OF False] g have g2: "calc_children f gs' = (gs', r)"
      by (auto split: prod.splits)
    show ?thesis
    proof (cases r)
      case None
      obtain cs' r' where c: "calc_children pf cs = (cs', r')" by (cases "calc_children pf cs")
      from 2(2)[OF False] None g have "calc_children pf cs' = (cs', r')"
        using c by (auto split: prod.splits)
      then show ?thesis using False g g2 None c by simp
    next
      case (Some e)
      then show ?thesis using False g g2 by simp
    qed
  qed
next
  case (3 i ls f p cs)
  obtain cs' r where c: "calc_children f cs = (cs', r)" by (cases "calc_children f cs")
  with 3 have "calc_children f cs' = (cs', r)" by (auto split: prod.splits)
  then show ?case using c by simp
qed

text \<open>
  C7. A second \<^verbatim>\<open>calculate_probs()\<close> directly after the first returns the tree the
  first call left, unchanged, with the same outcome: no probability field changes.
\<close>

theorem calculate_probs_idempotent:
  "calculate_probs (fst (calculate_probs pt)) = calculate_probs pt"
proof -
  obtain rt r where c: "calculate_probs_node (tree pt) = (rt, r)"
    by (cases "calculate_probs_node (tree pt)")
  with calc_idem(2)[of "tree pt"] have "calculate_probs_node rt = (rt, r)" by simp
  then show ?thesis using c by (simp add: calculate_probs_def)
qed

section \<open>Cached node statistics\<close>



lemma cache_perform: "cache pt k = Some s \<Longrightarrow> cache (perform c pt) k = Some s"
  by (cases c)
     (auto simp: insert_tree_def calculate_probs_def get_node_stats_def Let_def
           split: prod.splits option.splits)

lemma cache_fold_perform: "cache pt k = Some s \<Longrightarrow> cache (fold perform calls pt) k = Some s"
  by (induction calls arbitrary: pt) (auto simp: cache_perform)

lemma cache_get_node_stats:
  "cache (snd (get_node_stats nd pt)) (node_id nd) = Some (fst (get_node_stats nd pt))"
  by (auto simp: get_node_stats_def Let_def split: option.splits)

lemma get_node_stats_hit: "cache pt (node_id nd) = Some s \<Longrightarrow> get_node_stats nd pt = (s, pt)"
  by (simp add: get_node_stats_def)

text \<open>
  C9. Once \<^verbatim>\<open>get_node_stats\<close> has been called for a node, every later call for a node
  with the same id returns the statistics memoized by that first call and leaves the
  tree as it is, whatever calls (insertions among them) were made in between.
\<close>

theorem get_node_stats_stale:
  "node_id nd' = node_id nd \<Longrightarrow>
   get_node_stats nd' (fold perform calls (snd (get_node_stats nd pt))) =
     (fst (get_node_stats nd pt), fold perform calls (snd (get_node_stats nd pt)))"
  by (rule get_node_stats_hit) (simp add: cache_fold_perform cache_get_node_stats)

lemma get_node_tree_ab: "get_node ''a'' tree_ab = Inr node_a"
  by code_simp

lemma get_node_later:
  "get_node ''a'' (fold perform [Insert ''ac'' 3 ''ac''] (snd (get_node_stats node_a tree_ab)))
     = Inr node_a_later"
  by (simp add: get_node_def tree_ab_def insert_tree_def PrefixTree_init_def Let_def
      get_node_stats_def node_a_def node_a_later_def)

theorem get_node_stats_stale_witness:
  "get_node ''a'' tree_ab = Inr node_a \<and>
   get_node ''a'' (fold perform [Insert ''ac'' 3 ''ac''] (snd (get_node_stats node_a tree_ab)))
     = Inr node_a_later \<and>
   node_id node_a_later = node_id node_a \<and>
   get_node_stats node_a_later
       (fold perform [Insert ''ac'' 3 ''ac''] (snd (get_node_stats node_a tree_ab))) =
     (fst (get_node_stats node_a tree_ab),
      fold perform [Insert ''ac'' 3 ''ac''] (snd (get_node_stats node_a tree_ab))) \<and>
   get_continuations node_a_later \<noteq> get_continuations node_a"
  using get_node_stats_stale [of node_a_later node_a "[Insert ''ac'' 3 ''ac'']" tree_ab]
    get_node_tree_ab get_node_later
  by (simp add: node_a_def node_a_later_def)




section \<open>Uniqueness point\<close>

text \<open>
  C1 at a word with eleven prefix positions. The positions in numeric order have
  2, 2, 1, ... continuations, so the first position with exactly one continuation is
  position 2 with key \<^verbatim>\<open>2_c\<close>; \<^verbatim>\<open>get_uniqueness_point\<close> scans the keys in string order,
  where \<^verbatim>\<open>10_#\<close> comes second, and returns \<^verbatim>\<open>(1, '10_#')\<close>.
\<close>

theorem get_uniqueness_point_string_order:
  "snd (read_elp lexicon_rows) = None \<and>
   get_word_continuations ''long'' (fst (read_elp lexicon_rows)) =
     Inr [(''0_a'', [1, 1]), (''1_b'', [1, 1]), (''2_c'', [1]), (''3_d'', [1]), (''4_e'', [1]),
          (''5_f'', [1]), (''6_g'', [1]), (''7_h'', [1]), (''8_i'', [1]), (''9_j'', [1]),
          (''10_#'', [1])] \<and>
   get_uniqueness_point ''long'' (fst (read_elp lexicon_rows)) = Inr (1, ''10_#'')"
  by code_simp

section \<open>Navigation after insertions\<close>

lemma insert_loop_Cons:
  "insert_loop pre (x # rest) w l pointer =
     AList.update (pre @ [x]) (visit (pre @ [x]) rest w l (fetch pointer (pre @ [x]))) pointer"
  by (simp add: Let_def fetch_def visit_def)

lemma children_visit [simp]:
  "children (visit key rest w l node) = insert_loop key rest w l (children node)"
  by (simp add: visit_def)

lemma set_update_cases:
  "(k', c) \<in> set (AList.update k v al) \<Longrightarrow> (k' = k \<and> c = v) \<or> (k', c) \<in> set al"
  by (induction al) (auto split: if_splits)

lemma get_node_loop_error: "get_node_loop pre v nd = Inl e \<Longrightarrow> e = KeyError"
  by (induction v arbitrary: pre nd) (auto split: option.splits)

lemma get_node_loop_children:
  "children nd' = children nd \<Longrightarrow> v \<noteq> [] \<Longrightarrow> get_node_loop pre v nd' = get_node_loop pre v nd"
  by (cases v) auto

lemma get_node_loop_insert_loop:
  "children nd' = insert_loop pre u w l (children nd) \<Longrightarrow>
   get_node_loop pre v nd' = Inl KeyError \<longleftrightarrow>
     v \<noteq> [] \<and> get_node_loop pre v nd = Inl KeyError \<and> \<not> prefix v u"
proof (induction v arbitrary: pre u nd nd')
  case Nil
  then show ?case by simp
next
  case (Cons x vs)
  show ?case
  proof (cases u)
    case Nil
    with Cons.prems show ?thesis by simp
  next
    case u: (Cons y us)
    show ?thesis
    proof (cases "y = x")
      case False
      with Cons.prems u show ?thesis by (simp add: update_conv' insert_loop_Cons del: insert_loop.simps)
    next
      case True
      define node0 where "node0 = fetch (children nd) (pre @ [x])"
      define node' where "node' = visit (pre @ [x]) us w l node0"
      have m: "map_of (children nd') (pre @ [x]) = Some node'"
        using Cons.prems u True
        by (simp add: update_conv' insert_loop_Cons node0_def node'_def del: insert_loop.simps)
      have "children node' = insert_loop (pre @ [x]) us w l (children node0)"
        by (simp add: node'_def)
      from Cons.IH[OF this]
      have ih: "get_node_loop (pre @ [x]) vs node' = Inl KeyError \<longleftrightarrow>
          vs \<noteq> [] \<and> get_node_loop (pre @ [x]) vs node0 = Inl KeyError \<and> \<not> prefix vs us" .
      show ?thesis
      proof (cases "map_of (children nd) (pre @ [x])")
        case None
        then have "children node0 = []" by (simp add: node0_def fetch_def)
        then have "get_node_loop (pre @ [x]) vs node0 = Inl KeyError \<longleftrightarrow> vs \<noteq> []"
          by (cases vs) auto
        with None m ih u True show ?thesis by (cases vs) auto
      next
        case (Some c)
        then have "node0 = c" by (simp add: node0_def fetch_def)
        with Some m ih u True show ?thesis by auto
      qed
    qed
  qed
qed

lemma fetch_ids:
  "(\<forall>(k, c)\<in>set cs. node_id c = k \<and> ids_ok c) \<Longrightarrow>
   node_id (fetch cs key) = key \<and> ids_ok (fetch cs key)"
  by (auto simp: fetch_def split: option.splits dest!: map_of_SomeD)

lemma ids_ok_children: "ids_ok nd \<Longrightarrow> (k, c) \<in> set (children nd) \<Longrightarrow> node_id c = k \<and> ids_ok c"
  by (cases nd) auto

lemma ids_ok_iff: "ids_ok nd \<longleftrightarrow> (\<forall>(k, c)\<in>set (children nd). node_id c = k \<and> ids_ok c)"
  by (cases nd) auto

lemma insert_loop_ids:
  "(\<forall>(k, c)\<in>set cs. node_id c = k \<and> ids_ok c) \<Longrightarrow>
   (\<forall>(k, c)\<in>set (insert_loop pre u w l cs). node_id c = k \<and> ids_ok c)"
proof (induction u arbitrary: pre cs)
  case Nil
  then show ?case by simp
next
  case (Cons x us)
  define node0 where "node0 = fetch cs (pre @ [x])"
  have n0: "node_id node0 = pre @ [x]" "ids_ok node0"
    using fetch_ids[OF Cons.prems] by (simp_all add: node0_def)
  then have "\<forall>(k, c)\<in>set (children node0). node_id c = k \<and> ids_ok c"
    using ids_ok_iff by blast
  from Cons.IH[OF this]
  have "ids_ok (visit (pre @ [x]) us w l node0)" "node_id (visit (pre @ [x]) us w l node0) = pre @ [x]"
    using n0 by (simp_all add: visit_def)
  with Cons.prems show ?case
    unfolding insert_loop_Cons node0_def[symmetric]
    by (auto dest!: set_update_cases)
qed

lemma get_node_loop_id:
  "get_node_loop pre v nd = Inr m \<Longrightarrow> ids_ok nd \<Longrightarrow> v \<noteq> [] \<Longrightarrow> node_id m = pre @ v"
proof (induction v arbitrary: pre nd)
  case Nil
  then show ?case by simp
next
  case (Cons x vs)
  from Cons.prems(1) obtain c where c: "map_of (children nd) (pre @ [x]) = Some c"
    and g: "get_node_loop (pre @ [x]) vs c = Inr m"
    by (auto split: option.splits)
  from c Cons.prems(2) have ok: "node_id c = pre @ [x] \<and> ids_ok c"
    by (cases nd) (auto dest!: map_of_SomeD)
  show ?case
  proof (cases vs)
    case Nil
    with g ok show ?thesis by simp
  next
    case (Cons a list)
    with Cons.IH[OF g] ok show ?thesis by simp
  qed
qed

lemma get_prefixes_loop_KeyError:
  "get_prefixes_loop pre v nd = Inl e \<longleftrightarrow> get_node_loop pre v nd = Inl e"
proof (induction v arbitrary: pre nd)
  case Nil
  then show ?case by simp
next
  case (Cons x vs)
  show ?case
  proof (cases "map_of (children nd) (pre @ [x])")
    case None
    then show ?thesis by simp
  next
    case (Some c)
    with Cons.IH[of "pre @ [x]" c] show ?thesis
      by (cases "get_prefixes_loop (pre @ [x]) vs c") auto
  qed
qed

lemma get_prefixes_loop_Inr:
  "get_prefixes_loop pre v nd = Inr ps \<Longrightarrow>
   map fst ps = v \<and> (\<forall>i<length v. get_node_loop pre (take (Suc i) v) nd = Inr (snd (ps ! i)))"
proof (induction v arbitrary: pre nd ps)
  case Nil
  then show ?case by simp
next
  case (Cons x vs)
  from Cons.prems obtain c ps' where c: "map_of (children nd) (pre @ [x]) = Some c"
    and g: "get_prefixes_loop (pre @ [x]) vs c = Inr ps'" and ps: "ps = (x, c) # ps'"
    by (auto split: option.splits sum.splits)
  from Cons.IH[OF g] have ih: "map fst ps' = vs"
    "\<And>j. j < length vs \<Longrightarrow> get_node_loop (pre @ [x]) (take (Suc j) vs) c = Inr (snd (ps' ! j))"
    by auto
  have "get_node_loop pre (take (Suc i) (x # vs)) nd = Inr (snd (ps ! i))"
    if "i < length (x # vs)" for i
  proof (cases i)
    case 0
    with c ps show ?thesis by simp
  next
    case (Suc j)
    with that ih(2)[of j] c ps show ?thesis by simp
  qed
  with ih(1) ps show ?case by simp
qed

lemma insert_tree_ok:
  "u \<noteq> [] \<Longrightarrow> snd (insert_tree u w l pt) = None \<and>
     children (tree (fst (insert_tree u w l pt))) = insert_loop [] u w l (children (tree pt)) \<and>
     freq (tree (fst (insert_tree u w l pt))) = freq (tree pt) + w"
  by (simp add: insert_tree_def Let_def)

lemma insert_all_Cons_Inr:
  "insert_all ((u, w, l) # ops) pt = Inr pt' \<longleftrightarrow>
     u \<noteq> [] \<and> insert_all ops (fst (insert_tree u w l pt)) = Inr pt'"
  by (auto simp: insert_tree_def Let_def)

lemma get_node_insert_tree:
  "u \<noteq> [] \<Longrightarrow> get_node v (fst (insert_tree u w l pt)) = Inl KeyError \<longleftrightarrow>
     v \<noteq> [] \<and> get_node v pt = Inl KeyError \<and> \<not> prefix v u"
  unfolding get_node_def
  by (rule get_node_loop_insert_loop) (simp add: insert_tree_ok)

lemma get_node_insert_all:
  "insert_all ops pt = Inr pt' \<Longrightarrow>
   get_node v pt' = Inl KeyError \<longleftrightarrow>
     get_node v pt = Inl KeyError \<and> (\<forall>(u, w, l)\<in>set ops. \<not> prefix v u)"
proof (induction ops arbitrary: pt)
  case Nil
  then show ?case by simp
next
  case (Cons a ops)
  obtain u w l where a: "a = (u, w, l)" by (cases a)
  from Cons.prems have "insert_all ((u, w, l) # ops) pt = Inr pt'" unfolding a .
  then have u: "u \<noteq> []" and r: "insert_all ops (fst (insert_tree u w l pt)) = Inr pt'"
    unfolding insert_all_Cons_Inr by simp_all
  have "get_node v pt = Inl KeyError \<Longrightarrow> v \<noteq> []"
    by (auto simp: get_node_def)
  with Cons.IH[OF r] get_node_insert_tree[OF u, of v w l pt] a show ?case by auto
qed

lemma ids_ok_insert_tree: "ids_ok (tree pt) \<Longrightarrow> ids_ok (tree (fst (insert_tree u w l pt)))"
  using insert_loop_ids[of "children (tree pt)" "[]" u w l]
  by (cases "tree pt") (auto simp: insert_tree_def Let_def)

lemma ids_ok_insert_all: "insert_all ops pt = Inr pt' \<Longrightarrow> ids_ok (tree pt) \<Longrightarrow> ids_ok (tree pt')"
proof (induction ops arbitrary: pt)
  case Nil
  then show ?case by simp
next
  case (Cons a ops)
  obtain u w l where a: "a = (u, w, l)" by (cases a)
  from Cons.prems(1) have "insert_all ((u, w, l) # ops) pt = Inr pt'" unfolding a .
  then have "insert_all ops (fst (insert_tree u w l pt)) = Inr pt'"
    unfolding insert_all_Cons_Inr by simp
  with Cons.IH Cons.prems(2) show ?case by (simp add: ids_ok_insert_tree)
qed

lemma root_id_insert_all:
  "insert_all ops pt = Inr pt' \<Longrightarrow> node_id (tree pt') = node_id (tree pt)"
proof (induction ops arbitrary: pt)
  case Nil
  then show ?case by simp
next
  case (Cons a ops)
  obtain u w l where a: "a = (u, w, l)" by (cases a)
  from Cons.prems(1) have "insert_all ((u, w, l) # ops) pt = Inr pt'" unfolding a .
  then have "insert_all ops (fst (insert_tree u w l pt)) = Inr pt'"
    unfolding insert_all_Cons_Inr by simp
  from Cons.IH[OF this] show ?case by (simp add: insert_tree_def Let_def)
qed

lemma inserted_prefix_closed: "prefix p v \<Longrightarrow> inserted_prefix ops v \<Longrightarrow> inserted_prefix ops p"
  by (auto simp: inserted_prefix_def intro: prefix_order.trans) 

text \<open>
  C8. On a tree built by insertions, \<^verbatim>\<open>get_node\<close> and \<^verbatim>\<open>get_prefixes\<close> raise \<open>KeyError\<close>
  exactly when some prefix of the queried sequence was never inserted; otherwise
  \<^verbatim>\<open>get_node\<close> returns the node whose id is the sequence, and \<^verbatim>\<open>get_prefixes\<close> the list
  whose entry \<open>i\<close> is the symbol \<open>i\<close> of the sequence with the node of the prefix of
  length \<open>i + 1\<close>.
\<close>

theorem get_node_get_prefixes_not_found:
  assumes "insert_all ops PrefixTree_init = Inr pt"
  shows "(get_node v pt = Inl KeyError \<longleftrightarrow> (\<exists>p. prefix p v \<and> \<not> inserted_prefix ops p)) \<and>
    (get_prefixes v pt = Inl KeyError \<longleftrightarrow> (\<exists>p. prefix p v \<and> \<not> inserted_prefix ops p)) \<and>
    ((\<forall>p. prefix p v \<longrightarrow> inserted_prefix ops p) \<longrightarrow>
       (\<exists>nd ps. get_node v pt = Inr nd \<and> node_id nd = v \<and>
          get_prefixes v pt = Inr ps \<and> map fst ps = v \<and>
          (\<forall>i<length v. get_node (take (Suc i) v) pt = Inr (snd (ps ! i)) \<and>
                         node_id (snd (ps ! i)) = take (Suc i) v)))"
proof -
  have init: "get_node v PrefixTree_init = Inl KeyError \<longleftrightarrow> v \<noteq> []"
    by (cases v) (auto simp: get_node_def PrefixTree_init_def)
  have ids: "ids_ok (tree pt)"
    using ids_ok_insert_all[OF assms] by (simp add: PrefixTree_init_def)
  have rid: "node_id (tree pt) = []"
    using root_id_insert_all[OF assms] by (simp add: PrefixTree_init_def)
  have nf: "get_node v pt = Inl KeyError \<longleftrightarrow> \<not> inserted_prefix ops v"
    using get_node_insert_all[OF assms, of v] init by (auto simp: inserted_prefix_def)
  have ex: "(\<exists>p. prefix p v \<and> \<not> inserted_prefix ops p) \<longleftrightarrow> \<not> inserted_prefix ops v"
    using inserted_prefix_closed by blast
  have pf: "get_prefixes v pt = Inl KeyError \<longleftrightarrow> get_node v pt = Inl KeyError"
    by (simp add: get_prefixes_def get_node_def get_prefixes_loop_KeyError)
  have found: "\<exists>nd ps. get_node v pt = Inr nd \<and> node_id nd = v \<and>
          get_prefixes v pt = Inr ps \<and> map fst ps = v \<and>
          (\<forall>i<length v. get_node (take (Suc i) v) pt = Inr (snd (ps ! i)) \<and>
                         node_id (snd (ps ! i)) = take (Suc i) v)"
    if "inserted_prefix ops v"
  proof -
    from that nf obtain nd where nd: "get_node v pt = Inr nd"
      by (cases "get_node v pt") (auto simp: get_node_def dest: get_node_loop_error)
    have idn: "node_id nd = v"
    proof (cases v)
      case Nil
      with nd rid show ?thesis by (auto simp: get_node_def)
    next
      case (Cons a list)
      with nd ids show ?thesis using get_node_loop_id[of "[]" v "tree pt" nd]
        by (simp add: get_node_def)
    qed
    from nd obtain ps where ps: "get_prefixes v pt = Inr ps"
      by (cases "get_prefixes v pt")
         (auto simp: get_prefixes_def get_node_def get_prefixes_loop_KeyError)
    from get_prefixes_loop_Inr[OF ps[unfolded get_prefixes_def]]
    have m: "map fst ps = v"
      and g: "\<And>i. i < length v \<Longrightarrow> get_node (take (Suc i) v) pt = Inr (snd (ps ! i))"
      by (auto simp: get_node_def)
    have "node_id (snd (ps ! i)) = take (Suc i) v" if "i < length v" for i
      using get_node_loop_id[of "[]" "take (Suc i) v" "tree pt" "snd (ps ! i)"] g[OF that] ids that
      by (cases v) (auto simp: get_node_def)
    with nd idn ps m g show ?thesis by auto
  qed
  from nf ex pf found show ?thesis by blast
qed

theorem get_node_get_prefixes_not_found_witness:
  "insert_all [(''124'', 3, ''''), (''125'', 3, '''')] PrefixTree_init = Inr tree_124_125 \<and>
   get_node ''13'' tree_124_125 = Inl KeyError \<and>
   (\<exists>p. prefix p ''13'' \<and> \<not> inserted_prefix [(''124'', 3, ''''), (''125'', 3, '''')] p) \<and>
   get_node ''12'' tree_124_125 = Inr (Node ''12'' [] 6 None
              [(''124'', Node ''124'' [''''] 3 None []),
               (''125'', Node ''125'' [''''] 3 None [])])"
proof -
  have b: "insert_all [(''124'', 3, ''''), (''125'', 3, '''')] PrefixTree_init = Inr tree_124_125"
    by (simp add: insert_tree_def PrefixTree_init_def Let_def tree_124_125_def)
  have g: "get_node ''13'' tree_124_125 = Inl KeyError"
    by (simp add: get_node_def tree_124_125_def)
  have h: "get_node ''12'' tree_124_125 = Inr (Node ''12'' [] 6 None
              [(''124'', Node ''124'' [''''] 3 None []),
               (''125'', Node ''125'' [''''] 3 None [])])"
    by (simp add: get_node_def tree_124_125_def)
  from get_node_get_prefixes_not_found[OF b, of "''13''"] b g h show ?thesis by simp
qed

section \<open>Aggregation invariant\<close>
























section \<open>Probability normalisation\<close>












end
